theory Spec2Isabelle
  imports Main "HOL-Library.Sublist"
begin

section \<open>Errors and the platform\<close>

text \<open>
  A Go \<open>error\<close> is an interface value: it carries its dynamic type. The type switch of
  \<open>executeAndHandle\<close> tells these types apart, so each dynamic type that can reach it is
  a constructor of its own. In particular the struct \<open>unsupportedOSError\<close> held by value
  and a pointer to it are two different dynamic types.
\<close>

datatype error =
    ErrorString string                  \<comment> \<open>made by \<open>errors.New\<close> or \<open>fmt.Errorf\<close>\<close>
  | UnsupportedOSError error            \<comment> \<open>the struct \<open>unsupportedOSError{err}\<close>, by value\<close>
  | PtrUnsupportedOSError error         \<comment> \<open>\<open>*unsupportedOSError\<close>\<close>
  | PtrStartProcessFailureError error   \<comment> \<open>\<open>*startProcessFailureError\<close>\<close>
  | PtrExitError int                    \<comment> \<open>\<open>*exec.ExitError\<close> with its exit code\<close>
  | PtrExecError string                 \<comment> \<open>\<open>*exec.Error\<close>: the executable was not found\<close>
  | PtrPathError string                 \<comment> \<open>\<open>*fs.PathError\<close>: a failed system call on a path\<close>
  | ErrBadPattern                       \<comment> \<open>\<open>filepath.ErrBadPattern\<close>\<close>
  | SkipDir                             \<comment> \<open>\<open>filepath.SkipDir\<close>\<close>
  | SkipAll                             \<comment> \<open>\<open>filepath.SkipAll\<close>\<close>
  | NilDereference                      \<comment> \<open>the run-time panic of a method call on nil\<close>

text \<open>
  What the program takes from its platform and from the standard library without
  defining it: \<open>runtime.GOOS\<close>, \<open>filepath.Abs\<close>, \<open>filepath.Clean\<close>,
  \<open>filepath.Match\<close> and \<open>filepath.Join\<close>. They are parameters of the model.
\<close>

record platform =
  GOOS :: string
  filepathAbs :: "string \<Rightarrow> error + string"
  filepathClean :: "string \<Rightarrow> string"
  filepathMatch :: "string \<Rightarrow> string \<Rightarrow> error + bool"
  filepathJoin :: "string \<Rightarrow> string \<Rightarrow> string"

text \<open>Durations are counted in nanoseconds, as \<open>time.Duration\<close> is.\<close>

type_synonym duration = int

definition Millisecond :: duration where
  "Millisecond = 1000000"

definition Granularity :: duration where
  "Granularity = 100 * Millisecond"

text \<open>
  A \<open>time.Time\<close> is an instant, here the nanoseconds since the zero time (negative
  before it); \<open>t.After(u)\<close> is \<open>u < t\<close>.
\<close>

type_synonym time = int

definition After :: "time \<Rightarrow> time \<Rightarrow> bool" where
  "After t u = (u < t)"

record flagState =
  watch :: "string list"
  ignore :: "string list"
  gran :: duration
  exec :: "string list"

definition errUnsupportedOS :: "string \<Rightarrow> error" where
  "errUnsupportedOS os = UnsupportedOSError (ErrorString (''unsupported OS: '' @ os))"

section \<open>The command runner\<close>

text \<open>
  What the operating system answers to one \<open>cmd.Start\<close> followed by \<open>cmd.Wait\<close>:
  the start fails with an error, or the process runs and \<open>Wait\<close> returns (nil, or an
  error such as \<open>*exec.ExitError\<close>). The answer may depend on the command, so the
  environment is a function of the program name and its arguments.
\<close>

datatype procResult = StartFails error | WaitReturns "error option"

type_synonym spawner = "string \<Rightarrow> string list \<Rightarrow> procResult"

text \<open>What the program writes or does, in the order it does it.\<close>

datatype effect =
    PrintFirstExecution
  | PrintHasChanged string
  | PrintError error
  | PrintExitCode int
  | PrintNewline
  | PrintStatusLine
  | RunCommand string "string list"
  | AssignBaseline time
  | Return

fun stringsJoin :: "string list \<Rightarrow> string \<Rightarrow> string" where
  "stringsJoin [] sep = []"
| "stringsJoin [x] sep = x"
| "stringsJoin (x # y # ys) sep = x @ sep @ stringsJoin (y # ys) sep"

definition runCmd :: "spawner \<Rightarrow> string \<Rightarrow> string list \<Rightarrow> error option \<times> effect list" where
  "runCmd spawn name args =
     (case spawn name args of
        StartFails err \<Rightarrow> (Some err, [])
      | WaitReturns r \<Rightarrow> (r, [RunCommand name args]))"

definition execute :: "platform \<Rightarrow> flagState \<Rightarrow> spawner \<Rightarrow> error option \<times> effect list" where
  "execute P fls spawn =
     (if GOOS P = ''windows'' then runCmd spawn ''cmd'' (''/c'' # exec fls)
      else if GOOS P = ''darwin'' \<or> GOOS P = ''linux''
        then runCmd spawn ''/bin/sh'' [''-c'', stringsJoin (exec fls) '' '']
      else (Some (errUnsupportedOS (GOOS P)), []))"

definition executeAndHandle :: "platform \<Rightarrow> flagState \<Rightarrow> spawner \<Rightarrow> string \<Rightarrow> bool \<times> effect list" where
  "executeAndHandle P fls spawn filename =
     (let banner = (if filename = [] then [PrintFirstExecution] else [PrintHasChanged filename]);
          (err, ran) = execute P fls spawn
      in case err of
           Some (PtrUnsupportedOSError e) \<Rightarrow> (False, banner @ ran @ [PrintError (PtrUnsupportedOSError e)])
         | Some (PtrStartProcessFailureError e) \<Rightarrow>
             (False, banner @ ran @ [PrintError (PtrStartProcessFailureError e)])
         | Some (PtrExitError code) \<Rightarrow>
             (True, banner @ ran @ (if code \<noteq> 0 then [PrintExitCode code] else []) @ [PrintNewline])
         | _ \<Rightarrow> (True, banner @ ran @ [PrintNewline]))"

section \<open>The configuration builder\<close>

datatype flag = flagWatch | flagIgnore | flagExec | flagTickSpeed | flagAfterTickSpeed

definition flags :: "string \<Rightarrow> flag option" where
  "flags = map_of
     [(''-w'', flagWatch), (''--watch'', flagWatch),
      (''-i'', flagIgnore), (''--ignore'', flagIgnore),
      (''-e'', flagExec), (''--exec'', flagExec),
      (''-t'', flagTickSpeed), (''--tick-speed'', flagTickSpeed)]"

definition errNothingToWatchOver :: error where
  "errNothingToWatchOver = ErrorString ''no file to watch over has been given''"

definition errNoExecFlag :: error where
  "errNoExecFlag = ErrorString ''no execution flag has been found or there is nothing after it''"

definition errUnknownFlag :: "string \<Rightarrow> error" where
  "errUnknownFlag arg = ErrorString (''unknown flag: '' @ arg)"

definition errArgAfterTickSpeedFlag :: error where
  "errArgAfterTickSpeedFlag = ErrorString ''only one argument should be passed after a tick speed flag''"

definition errFailedToParseMilliseconds :: error where
  "errFailedToParseMilliseconds = ErrorString ''given milliseconds failed to be parsed as a number''"

definition errTickSpeedNonPositive :: error where
  "errTickSpeedNonPositive = ErrorString ''tick speed must be positive''"

definition errTickSpeedGranAlreadySet :: error where
  "errTickSpeedGranAlreadySet = ErrorString ''the tick speed has already been set''"

definition isFlagLike :: "string \<Rightarrow> bool" where
  "isFlagLike arg = (take 1 arg = ''-'')"

subsection \<open>The library functions of the tick-speed case\<close>

text \<open>
  \<open>strconv.ParseInt(arg, 10, 0)\<close> on a platform whose \<open>int\<close> has 64 bits: an optional
  sign, then one or more decimal digits, and a value that fits in 64 signed bits. The
  program only asks whether the error is nil, so every failure is \<open>None\<close>.
\<close>

definition digitVal :: "char \<Rightarrow> int option" where
  "digitVal c = (if 48 \<le> (of_char c :: int) \<and> (of_char c :: int) \<le> 57
                 then Some (of_char c - 48) else None)"

fun parseDigits :: "int \<Rightarrow> string \<Rightarrow> int option" where
  "parseDigits n [] = Some n"
| "parseDigits n (c # cs) =
     (case digitVal c of None \<Rightarrow> None | Some d \<Rightarrow> parseDigits (n * 10 + d) cs)"

definition ParseUint :: "string \<Rightarrow> int option" where
  "ParseUint s = (if s = [] then None else parseDigits 0 s)"

definition ParseInt :: "string \<Rightarrow> int option" where
  "ParseInt s =
     (if s = [] then None
      else let neg = (hd s = CHR ''-'');
               s1 = (if hd s = CHR ''+'' \<or> hd s = CHR ''-'' then tl s else s)
           in case ParseUint s1 of
                None \<Rightarrow> None
              | Some un \<Rightarrow>
                  if \<not> neg \<and> un \<ge> 2 ^ 63 then None
                  else if neg \<and> un > 2 ^ 63 then None
                  else Some (if neg then - un else un))"

text \<open>
  \<open>time.Duration.Round\<close>: the nearest multiple of \<open>m\<close>, halfway values away from zero,
  saturating at the ends of the 64-bit range; \<open>d\<close> unchanged when \<open>m \<le> 0\<close>. The
  remainder is Go's, whose sign follows the dividend, and the sums wrap at 64 bits.
\<close>

definition maxDuration :: duration where
  "maxDuration = 2 ^ 63 - 1"

definition minDuration :: duration where
  "minDuration = - (2 ^ 63)"

definition wrap64 :: "int \<Rightarrow> int" where
  "wrap64 x = (x + 2 ^ 63) mod 2 ^ 64 - 2 ^ 63"

definition goRem :: "int \<Rightarrow> int \<Rightarrow> int" where
  "goRem a b = sgn a * (\<bar>a\<bar> mod \<bar>b\<bar>)"

definition lessThanHalf :: "duration \<Rightarrow> duration \<Rightarrow> bool" where
  "lessThanHalf x y = ((x + x) mod 2 ^ 64 < y mod 2 ^ 64)"

definition Round :: "duration \<Rightarrow> duration \<Rightarrow> duration" where
  "Round d m =
     (if m \<le> 0 then d
      else let r = goRem d m in
        if d < 0 then
          (if lessThanHalf (- r) m then wrap64 (d + (- r))
           else let d1 = wrap64 (d - m + (- r)) in if d1 < d then d1 else minDuration)
        else if lessThanHalf r m then wrap64 (d - r)
        else let d1 = wrap64 (d + m - r) in if d1 > d then d1 else maxDuration)"

subsection \<open>processFlags\<close>

text \<open>
  The loop over the arguments. \<open>Inl\<close> is an early return with an error (also the
  \<open>errNoExecFlag\<close> after the loop has run out); \<open>Inr\<close> is the jump to the label \<open>exit\<close>.
\<close>

fun processArgs :: "flagState \<Rightarrow> flag \<Rightarrow> string list \<Rightarrow> error + flagState" where
  "processArgs fls currentFlag [] = Inl errNoExecFlag"
| "processArgs fls currentFlag (arg # rest) =
     (case flags arg of
        Some f \<Rightarrow> processArgs fls f rest
      | None \<Rightarrow>
          if isFlagLike arg then Inl (errUnknownFlag arg)
          else (case currentFlag of
              flagWatch \<Rightarrow> processArgs (fls\<lparr>watch := watch fls @ [arg]\<rparr>) currentFlag rest
            | flagIgnore \<Rightarrow> processArgs (fls\<lparr>ignore := ignore fls @ [arg]\<rparr>) currentFlag rest
            | flagExec \<Rightarrow> Inr (fls\<lparr>exec := arg # rest\<rparr>)
            | flagTickSpeed \<Rightarrow>
                (case ParseInt arg of
                   None \<Rightarrow> Inl errFailedToParseMilliseconds
                 | Some num \<Rightarrow>
                     if num \<le> 0 then Inl errTickSpeedNonPositive
                     else if gran fls \<noteq> 0 then Inl errTickSpeedGranAlreadySet
                     else processArgs (fls\<lparr>gran := Round num Granularity\<rparr>) flagAfterTickSpeed rest)
            | flagAfterTickSpeed \<Rightarrow> Inl errArgAfterTickSpeedFlag))"

fun absAll :: "platform \<Rightarrow> string list \<Rightarrow> error + string list" where
  "absAll P [] = Inr []"
| "absAll P (w # ws) =
     (case filepathAbs P w of
        Inl err \<Rightarrow> Inl err
      | Inr result \<Rightarrow> (case absAll P ws of Inl err \<Rightarrow> Inl err | Inr rs \<Rightarrow> Inr (result # rs)))"

fun cleanAll :: "platform \<Rightarrow> string list \<Rightarrow> error + string list" where
  "cleanAll P [] = Inr []"
| "cleanAll P (i # is) =
     (let c = filepathClean P i in
      case filepathMatch P c [] of
        Inl err \<Rightarrow> Inl err
      | Inr m \<Rightarrow> (case cleanAll P is of Inl err \<Rightarrow> Inl err | Inr cs \<Rightarrow> Inr (c # cs)))"

definition normalizePaths :: "platform \<Rightarrow> flagState \<Rightarrow> error + flagState" where
  "normalizePaths P fls =
     (case absAll P (watch fls) of
        Inl err \<Rightarrow> Inl err
      | Inr ws \<Rightarrow>
          (case cleanAll P (ignore fls) of
             Inl err \<Rightarrow> Inl err
           | Inr igs \<Rightarrow> Inr (fls\<lparr>watch := ws, ignore := igs\<rparr>)))"

definition emptyFlagState :: flagState where
  "emptyFlagState = \<lparr>watch = [], ignore = [], gran = 0, exec = []\<rparr>"

definition processFlags :: "platform \<Rightarrow> string list \<Rightarrow> error + flagState" where
  "processFlags P args =
     (case processArgs emptyFlagState flagWatch args of
        Inl err \<Rightarrow> Inl err
      | Inr fls \<Rightarrow>
          if watch fls = [] then Inl errNothingToWatchOver
          else normalizePaths P (if gran fls = 0 then fls\<lparr>gran := Granularity\<rparr> else fls))"

section \<open>The change scanner\<close>

subsection \<open>The file system and the library's walk\<close>

text \<open>
  What one scan sees of the file system. An entry has a name, is a directory or not,
  answers \<open>d.Info()\<close> with its file information or an error (the file has vanished),
  and, when a directory, answers \<open>os.ReadDir\<close> with its entries in the order of their
  names and possibly an error. \<open>os.Lstat\<close> of a root gives the entry or an error.
\<close>

record fileInfo =
  ModTime :: time

datatype node = Node (Name: string) (IsDir: bool) (Info: "error + fileInfo")
  (ReadDirError: "error option") (ReadDirEntries: "node list")

type_synonym filesystem = "string \<Rightarrow> error + node"

text \<open>
  A \<open>fs.WalkDirFunc\<close> is a closure: the variables it captures are a state \<open>'s\<close> that
  each call takes and returns. Its entry is \<open>None\<close> where Go passes a nil \<open>d\<close>.
\<close>

type_synonym 's walkDirFunc = "string \<Rightarrow> node option \<Rightarrow> error option \<Rightarrow> 's \<Rightarrow> error option \<times> 's"

text \<open>
  \<open>filepath.WalkDir\<close> of the standard library. The function is called on the root
  itself first, and on every entry, directory or not. \<open>SkipDir\<close> returned on a directory
  skips its contents; returned on any other entry it leaves the loop over the entries
  of the parent directory. \<open>walkEntries\<close> is that loop.
\<close>

fun walkDir :: "platform \<Rightarrow> string \<Rightarrow> node \<Rightarrow> 's walkDirFunc \<Rightarrow> 's \<Rightarrow> error option \<times> 's"
and walkEntries :: "platform \<Rightarrow> string \<Rightarrow> node list \<Rightarrow> 's walkDirFunc \<Rightarrow> 's \<Rightarrow> error option \<times> 's"
where
  "walkDir P path (Node nm isdir fi rderr ents) fn s =
     (case fn path (Some (Node nm isdir fi rderr ents)) None s of
        (Some err, s1) \<Rightarrow> (if err = SkipDir \<and> isdir then (None, s1) else (Some err, s1))
      | (None, s1) \<Rightarrow>
          if \<not> isdir then (None, s1)
          else (case rderr of
              None \<Rightarrow> walkEntries P path ents fn s1
            | Some rerr \<Rightarrow>
                (case fn path (Some (Node nm isdir fi rderr ents)) (Some rerr) s1 of
                   (Some err, s2) \<Rightarrow> (if err = SkipDir \<and> isdir then (None, s2) else (Some err, s2))
                 | (None, s2) \<Rightarrow> walkEntries P path ents fn s2)))"
| "walkEntries P path [] fn s = (None, s)"
| "walkEntries P path (d1 # ds) fn s =
     (case walkDir P (filepathJoin P path (Name d1)) d1 fn s of
        (Some err, s1) \<Rightarrow> (if err = SkipDir then (None, s1) else (Some err, s1))
      | (None, s1) \<Rightarrow> walkEntries P path ds fn s1)"

definition WalkDir :: "platform \<Rightarrow> filesystem \<Rightarrow> string \<Rightarrow> 's walkDirFunc \<Rightarrow> 's \<Rightarrow> error option \<times> 's" where
  "WalkDir P fs root fn s =
     (case (case fs root of
              Inl err \<Rightarrow> fn root None (Some err) s
            | Inr d \<Rightarrow> walkDir P root d fn s) of
        (err, s1) \<Rightarrow> (if err = Some SkipDir \<or> err = Some SkipAll then (None, s1) else (err, s1)))"

subsection \<open>selectiveWalk and findLatestChange\<close>

definition HasSuffix :: "string \<Rightarrow> string \<Rightarrow> bool" where
  "HasSuffix s suf = (length s \<ge> length suf \<and> drop (length s - length suf) s = suf)"

text \<open>\<open>strings.ReplaceAll(path, "\\", "/")\<close>: every backslash becomes a slash.\<close>

definition slashed :: "string \<Rightarrow> string" where
  "slashed path = map (\<lambda>c. if c = CHR 0x5C then CHR ''/'' else c) path"

text \<open>\<open>match, _ := filepath.Match(ig, ...)\<close>: the error is dropped, and \<open>match\<close> is false with it.\<close>

definition matched :: "platform \<Rightarrow> string \<Rightarrow> string \<Rightarrow> bool" where
  "matched P ig path = (case filepathMatch P ig (slashed path) of Inl err \<Rightarrow> False | Inr m \<Rightarrow> m)"

text \<open>The loop over \<open>fls.ignore\<close> in the walk function: true where it returns \<open>SkipDir\<close>.\<close>

fun ignored :: "platform \<Rightarrow> string list \<Rightarrow> string \<Rightarrow> bool" where
  "ignored P [] path = False"
| "ignored P (ig # igs) path =
     (if HasSuffix path ig then True
      else if matched P ig path then True
      else ignored P igs path)"

type_synonym 's action = "string \<Rightarrow> fileInfo \<Rightarrow> 's \<Rightarrow> error option \<times> 's"

definition visit :: "platform \<Rightarrow> flagState \<Rightarrow> 's action \<Rightarrow> 's walkDirFunc" where
  "visit P fls action path d err s =
     (case err of
        Some e \<Rightarrow> (Some e, s)
      | None \<Rightarrow>
          if ignored P (ignore fls) path then (Some SkipDir, s)
          else (case d of
              None \<Rightarrow> (Some NilDereference, s)
            | Some n \<Rightarrow> (case Info n of Inl e \<Rightarrow> (Some e, s) | Inr info \<Rightarrow> action path info s)))"

fun walkRoots :: "platform \<Rightarrow> filesystem \<Rightarrow> flagState \<Rightarrow> 's action \<Rightarrow> string list \<Rightarrow> 's \<Rightarrow> error option \<times> 's" where
  "walkRoots P fs fls action [] s = (None, s)"
| "walkRoots P fs fls action (root # roots) s =
     (case WalkDir P fs root (visit P fls action) s of
        (Some err, s1) \<Rightarrow> (Some err, s1)
      | (None, s1) \<Rightarrow> walkRoots P fs fls action roots s1)"

definition selectiveWalk :: "platform \<Rightarrow> filesystem \<Rightarrow> flagState \<Rightarrow> 's action \<Rightarrow> 's \<Rightarrow> error option \<times> 's" where
  "selectiveWalk P fs fls action s = walkRoots P fs fls action (watch fls) s"

text \<open>
  The closure of \<open>findLatestChange\<close> captures the named results \<open>latestModTime\<close> and
  \<open>filename\<close>, which start at the zero time and the empty string.
\<close>

definition latest :: "(time \<times> string) action" where
  "latest path info s =
     (case s of (latestModTime, filename) \<Rightarrow>
        (None, if After (ModTime info) latestModTime then (ModTime info, path)
               else (latestModTime, filename)))"

definition findLatestChange :: "platform \<Rightarrow> filesystem \<Rightarrow> flagState \<Rightarrow> time \<times> string \<times> error option" where
  "findLatestChange P fs fls =
     (case selectiveWalk P fs fls latest (0, []) of
        (err, (latestModTime, filename)) \<Rightarrow> (latestModTime, filename, err))"

text \<open>
  The entries a scan hands to its action, in the order of the walk: \<open>selectiveWalk\<close>
  run with an action that only notes its arguments.
\<close>

definition noted :: "((string \<times> fileInfo) list) action" where
  "noted path info s = (None, s @ [(path, info)])"

definition visited :: "platform \<Rightarrow> filesystem \<Rightarrow> flagState \<Rightarrow> (string \<times> fileInfo) list" where
  "visited P fs fls = snd (selectiveWalk P fs fls noted [])"

section \<open>The watch loop\<close>

text \<open>
  What the loop of \<open>main\<close> receives, one element for each turn of its \<open>select\<close>: a
  signal, or a tick together with the file system that the scan of this tick sees and
  the answer of the operating system should the command be run. The loop variable
  \<open>currentLatestModTime\<close> is the argument \<open>cur\<close>; the result lists the effects in the
  order of the statements, \<open>Return\<close> where \<open>main\<close> returns. A list of inputs that runs
  out leaves the loop waiting.
\<close>

datatype input = Signal | Tick filesystem spawner

fun watchLoop :: "platform \<Rightarrow> flagState \<Rightarrow> time \<Rightarrow> input list \<Rightarrow> effect list" where
  "watchLoop P fls cur [] = []"
| "watchLoop P fls cur (Signal # rest) = [Return]"
| "watchLoop P fls cur (Tick fs spawn # rest) =
     (case findLatestChange P fs fls of
        (latestModTime, filename, Some err) \<Rightarrow> [PrintError err, Return]
      | (latestModTime, filename, None) \<Rightarrow>
          if \<not> After latestModTime cur then PrintStatusLine # watchLoop P fls cur rest
          else (case executeAndHandle P fls spawn filename of
                  (False, out) \<Rightarrow> out @ [Return]
                | (True, out) \<Rightarrow>
                    out @ AssignBaseline latestModTime # watchLoop P fls latestModTime rest))"

text \<open>
  \<open>main\<close> from the call of \<open>processFlags\<close> on (the console mode and the help and version
  texts before it are left out): the first scan, the first execution, the loop.
\<close>

definition main :: "platform \<Rightarrow> string list \<Rightarrow> filesystem \<Rightarrow> spawner \<Rightarrow> input list \<Rightarrow> effect list" where
  "main P args fs0 spawn0 inputs =
     (case processFlags P args of
        Inl err \<Rightarrow> [PrintError err, Return]
      | Inr fls \<Rightarrow>
          (case findLatestChange P fs0 fls of
             (currentLatestModTime, filename, Some err) \<Rightarrow> [PrintError err, Return]
           | (currentLatestModTime, filename, None) \<Rightarrow>
               AssignBaseline currentLatestModTime #
               (case executeAndHandle P fls spawn0 [] of
                  (False, out) \<Rightarrow> out @ [Return]
                | (True, out) \<Rightarrow> out @ watchLoop P fls currentLatestModTime inputs)))"

text \<open>The values that \<open>currentLatestModTime\<close> takes, in order.\<close>

fun baselines :: "effect list \<Rightarrow> time list" where
  "baselines [] = []"
| "baselines (AssignBaseline t # es) = t # baselines es"
| "baselines (e # es) = baselines es"

section \<open>Example inputs\<close>

text \<open>
  A platform, a configuration and file systems on which the model is evaluated. On this
  platform a pattern matches the name equal to it, which is what \<open>filepath.Match\<close> does
  for a pattern without metacharacters.
\<close>

definition linuxExample :: platform where
  "linuxExample = \<lparr>GOOS = ''linux'', filepathAbs = (\<lambda>p. Inr p), filepathClean = (\<lambda>p. p),
     filepathMatch = (\<lambda>pat nm. Inr (pat = nm)), filepathJoin = (\<lambda>dir nm. dir @ ''/'' @ nm)\<rparr>"

definition watchW :: flagState where
  "watchW = \<lparr>watch = [''/w''], ignore = [''.git''], gran = Granularity, exec = [''make'']\<rparr>"

definition fileAt :: "string \<Rightarrow> time \<Rightarrow> node" where
  "fileAt nm t = Node nm False (Inr \<lparr>ModTime = t\<rparr>) None []"

definition dirAt :: "string \<Rightarrow> time \<Rightarrow> node list \<Rightarrow> node" where
  "dirAt nm t ents = Node nm True (Inr \<lparr>ModTime = t\<rparr>) None ents"

definition onlyRoot :: "node \<Rightarrow> filesystem" where
  "onlyRoot d root = (if root = ''/w'' then Inr d else Inl (PtrPathError ''lstat: no such file or directory''))"

definition emptyDirFs :: filesystem where
  "emptyDirFs = onlyRoot (dirAt ''w'' 5 [])"

definition tiesFs :: filesystem where
  "tiesFs = onlyRoot (dirAt ''w'' 3 [fileAt ''a'' 7, fileAt ''b'' 7, fileAt ''c'' 6])"

definition gitFs :: filesystem where
  "gitFs = onlyRoot (dirAt ''w'' 3 [fileAt ''.git'' 9, fileAt ''z'' 8])"

definition exitsWith :: "int \<Rightarrow> spawner" where
  "exitsWith code name args = WaitReturns (if code = 0 then None else Some (PtrExitError code))"

text \<open>
  A watch root that lies below a directory whose name is an ignore entry, and a
  configuration with two watch roots, the second an entry of the first.
\<close>

definition gitDirFs :: filesystem where
  "gitDirFs = onlyRoot (dirAt ''w'' 3 [dirAt ''.git'' 9 [fileAt ''HEAD'' 10], fileAt ''z'' 8])"

definition watchAll :: flagState where
  "watchAll = \<lparr>watch = [''/w''], ignore = [], gran = Granularity, exec = [''make'']\<rparr>"

definition belowBuild :: flagState where
  "belowBuild = \<lparr>watch = [''/p/build/proj''], ignore = [''build''], gran = Granularity, exec = [''make'']\<rparr>"

definition belowBuildFs :: filesystem where
  "belowBuildFs root =
     (if root = ''/p/build/proj'' then Inr (dirAt ''proj'' 3 [fileAt ''a.go'' 7])
      else Inl (PtrPathError ''lstat: no such file or directory''))"

definition twoRoots :: flagState where
  "twoRoots = \<lparr>watch = [''/w'', ''/w/z''], ignore = [''.git''], gran = Granularity, exec = [''make'']\<rparr>"

definition twoRootsFs :: filesystem where
  "twoRootsFs root =
     (if root = ''/w'' then Inr (dirAt ''w'' 3 [fileAt ''.git'' 9, fileAt ''z'' 8])
      else if root = ''/w/z'' then Inr (fileAt ''z'' 8)
      else Inl (PtrPathError ''lstat: no such file or directory''))"

section \<open>Notions used in the proofs\<close>

text \<open>
  Two actions simulate each other under a relation \<open>R\<close> between their states when, on
  every entry that is not ignored, they return the same error and related states; two
  results of a walk agree when they hold the same error and related states.
\<close>

definition sim :: "platform \<Rightarrow> flagState \<Rightarrow> ('s \<Rightarrow> 't \<Rightarrow> bool) \<Rightarrow> 's action \<Rightarrow> 't action \<Rightarrow> bool" where
  "sim P fls R a1 a2 = (\<forall>p i s1 s2. \<not> ignored P (ignore fls) p \<longrightarrow> R s1 s2 \<longrightarrow>
      fst (a1 p i s1) = fst (a2 p i s2) \<and> R (snd (a1 p i s1)) (snd (a2 p i s2)))"

definition agree :: "('s \<Rightarrow> 't \<Rightarrow> bool) \<Rightarrow> error option \<times> 's \<Rightarrow> error option \<times> 't \<Rightarrow> bool" where
  "agree R r1 r2 = (fst r1 = fst r2 \<and> R (snd r1) (snd r2))"

text \<open>One step of the running maximum of \<open>findLatestChange\<close>, as a function on pairs.\<close>

definition later :: "time \<times> string \<Rightarrow> string \<times> fileInfo \<Rightarrow> time \<times> string" where
  "later s v = (if After (ModTime (snd v)) (fst s) then (ModTime (snd v), fst v) else s)"


section \<open>Properties of the command runner\<close>

lemmas run_defs = executeAndHandle_def execute_def runCmd_def exitsWith_def

lemmas scan_defs = findLatestChange_def selectiveWalk_def WalkDir_def visit_def latest_def After_def
  HasSuffix_def matched_def slashed_def visited_def noted_def
  linuxExample_def watchW_def fileAt_def dirAt_def onlyRoot_def emptyDirFs_def tiesFs_def gitFs_def
  gitDirFs_def watchAll_def belowBuild_def belowBuildFs_def twoRoots_def twoRootsFs_def

lemma processFlags_w_make:
  "processFlags (linuxExample\<lparr>GOOS := os\<rparr>) [''/w'', ''-e'', ''make''] =
     Inr \<lparr>watch = [''/w''], ignore = [], gran = Granularity, exec = [''make'']\<rparr>"
  by (simp add: processFlags_def emptyFlagState_def flags_def isFlagLike_def normalizePaths_def
        linuxExample_def)

text \<open>
  C1 (the code departs from the claim). On a platform that is neither windows nor
  darwin/linux, \<open>execute\<close> returns the struct \<open>unsupportedOSError\<close> by value, while the
  type switch of \<open>executeAndHandle\<close> tests for the pointer type. No case matches:
  \<open>executeAndHandle\<close> prints a newline, not the error, and returns true. The loop goes on:
  in the run below the next tick scans, finds a newer file and calls the runner again.
\<close>

theorem C1_unsupported_os_returns_true:
  "executeAndHandle (P\<lparr>GOOS := ''freebsd''\<rparr>) fls spawn [] = (True, [PrintFirstExecution, PrintNewline])
   \<and> executeAndHandle (P\<lparr>GOOS := ''freebsd''\<rparr>) fls spawn (c # cs) =
        (True, [PrintHasChanged (c # cs), PrintNewline])
   \<and> main (linuxExample\<lparr>GOOS := ''freebsd''\<rparr>) [''/w'', ''-e'', ''make''] emptyDirFs spawn
          [Tick tiesFs spawn, Signal] =
        [AssignBaseline 5, PrintFirstExecution, PrintNewline,
         PrintHasChanged ''/w/a'', PrintNewline, AssignBaseline 7, Return]"
  unfolding main_def processFlags_w_make
  by (simp add: scan_defs run_defs errUnsupportedOS_def)

text \<open>
  C2 (the code departs from the claim). When \<open>cmd.Start\<close> fails, \<open>execute\<close> returns the
  error of \<open>os/exec\<close> as it is; nothing wraps it in \<open>startProcessFailureError\<close>. The type
  switch does not match it, and \<open>executeAndHandle\<close> returns true, exactly as it does
  after a process that exits with a non-zero status. The loop goes on, as the run shows.
\<close>

theorem C2_start_failure_returns_true:
  "fst (executeAndHandle (P\<lparr>GOOS := ''linux''\<rparr>) fls (\<lambda>name args. StartFails (PtrPathError msg)) filename) = True
   \<and> fst (executeAndHandle (P\<lparr>GOOS := ''windows''\<rparr>) fls (\<lambda>name args. StartFails (PtrExecError msg)) filename) = True
   \<and> fst (executeAndHandle (P\<lparr>GOOS := ''linux''\<rparr>) fls (\<lambda>name args. WaitReturns (Some (PtrExitError 3))) filename) = True
   \<and> main (linuxExample\<lparr>GOOS := ''linux''\<rparr>) [''/w'', ''-e'', ''make''] emptyDirFs
          (\<lambda>name args. StartFails (PtrPathError msg))
          [Tick tiesFs (\<lambda>name args. StartFails (PtrPathError msg)), Signal] =
        [AssignBaseline 5, PrintFirstExecution, PrintNewline,
         PrintHasChanged ''/w/a'', PrintNewline, AssignBaseline 7, Return]"
  unfolding main_def processFlags_w_make
  by (simp add: scan_defs run_defs)

section \<open>Properties of the configuration builder\<close>

text \<open>
  A tick speed below 50,000,000 is less than half of the granularity once read as
  nanoseconds, and rounds to zero.
\<close>

lemma Round_below_half_granularity:
  "0 < n \<Longrightarrow> n < 50000000 \<Longrightarrow> Round n Granularity = 0"
  by (simp add: Round_def Granularity_def Millisecond_def goRem_def lessThanHalf_def wrap64_def)

lemma processArgs_help_example:
  "processArgs emptyFlagState flagWatch [''src'', ''--tick-speed'', ''3000'', ''-e'', ''go test -v ./...'']
     = Inr \<lparr>watch = [''src''], ignore = [], gran = 0, exec = [''go test -v ./...'']\<rparr>"
  by (simp add: emptyFlagState_def flags_def isFlagLike_def ParseInt_def ParseUint_def digitVal_def
        Round_def Granularity_def Millisecond_def goRem_def lessThanHalf_def wrap64_def)

lemma processArgs_twice:
  "processArgs emptyFlagState flagWatch [''src'', ''-t'', ''1000'', ''-t'', ''2000'', ''-e'', ''build.sh'']
     = Inr \<lparr>watch = [''src''], ignore = [], gran = 0, exec = [''build.sh'']\<rparr>"
  by (simp add: emptyFlagState_def flags_def isFlagLike_def ParseInt_def ParseUint_def digitVal_def
        Round_def Granularity_def Millisecond_def goRem_def lessThanHalf_def wrap64_def)

text \<open>
  C3 (the code departs from the claim). The number after the tick-speed flag becomes
  a \<open>time.Duration\<close> as it is, that is a number of nanoseconds, and is then rounded to
  a multiple of 100 ms. On the example of the program's own help text,
  \<open>watcher src --tick-speed 3000 -e "go test -v ./..."\<close> ("every three seconds"),
  3000 ns rounds to 0, which the exit code takes for "not set": the interval is the
  default of 100 ms, not 3000 ms.
\<close>

theorem C3_tick_speed_3000_gives_100ms:
  "processFlags P [''src'', ''--tick-speed'', ''3000'', ''-e'', ''go test -v ./...''] =
     (case filepathAbs P ''src'' of
        Inl err \<Rightarrow> Inl err
      | Inr a \<Rightarrow> Inr \<lparr>watch = [a], ignore = [], gran = 100 * Millisecond, exec = [''go test -v ./...'']\<rparr>)"
  unfolding processFlags_def processArgs_help_example
  by (simp add: normalizePaths_def Granularity_def split: sum.splits)

text \<open>
  C6 (the code departs from the claim). The test for a tick speed given twice is
  \<open>fls.gran != 0\<close>, and the first value, 1000 ns rounded to a multiple of 100 ms, has
  left \<open>fls.gran\<close> at 0. The second value is accepted, no error is returned, and the
  configuration is built with the default interval.
\<close>

theorem C6_tick_speed_twice_accepted:
  "processFlags P [''src'', ''-t'', ''1000'', ''-t'', ''2000'', ''-e'', ''build.sh''] =
     (case filepathAbs P ''src'' of
        Inl err \<Rightarrow> Inl err
      | Inr a \<Rightarrow> Inr \<lparr>watch = [a], ignore = [], gran = 100 * Millisecond, exec = [''build.sh'']\<rparr>)"
  unfolding processFlags_def processArgs_twice
  by (simp add: normalizePaths_def Granularity_def split: sum.splits)

section \<open>Properties of the change scanner\<close>

subsection \<open>Two runs of the walk with actions that simulate each other\<close>

lemma agreeI: "e1 = e2 \<Longrightarrow> R s1 s2 \<Longrightarrow> agree R (e1, s1) (e2, s2)"
  by (simp add: agree_def)

lemma visit_agree:
  assumes "sim P fls R a1 a2" and "R s1 s2"
  shows "agree R (visit P fls a1 path d err s1) (visit P fls a2 path d err s2)"
  using assms
  by (auto simp: visit_def agree_def sim_def split: option.splits sum.splits)

lemma walkEntries_agree_step:
  assumes ih: "\<And>d path s1 s2. d \<in> set ds \<Longrightarrow> R s1 s2 \<Longrightarrow>
                 agree R (walkDir P path d (visit P fls a1) s1) (walkDir P path d (visit P fls a2) s2)"
    and "R s1 s2"
  shows "agree R (walkEntries P path ds (visit P fls a1) s1) (walkEntries P path ds (visit P fls a2) s2)"
  using assms
proof (induction ds arbitrary: s1 s2)
  case Nil
  then show ?case by (simp add: agree_def)
next
  case (Cons d1 ds)
  have h: "agree R (walkDir P (filepathJoin P path (Name d1)) d1 (visit P fls a1) s1)
                   (walkDir P (filepathJoin P path (Name d1)) d1 (visit P fls a2) s2)"
    using Cons.prems by simp
  obtain e1 t1 where r1: "walkDir P (filepathJoin P path (Name d1)) d1 (visit P fls a1) s1 = (e1, t1)"
    by (cases "walkDir P (filepathJoin P path (Name d1)) d1 (visit P fls a1) s1")
  obtain e2 t2 where r2: "walkDir P (filepathJoin P path (Name d1)) d1 (visit P fls a2) s2 = (e2, t2)"
    by (cases "walkDir P (filepathJoin P path (Name d1)) d1 (visit P fls a2) s2")
  from h r1 r2 have e: "e1 = e2" and t: "R t1 t2" by (simp_all add: agree_def)
  have rest: "agree R (walkEntries P path ds (visit P fls a1) t1) (walkEntries P path ds (visit P fls a2) t2)"
    using Cons.IH [of t1 t2] Cons.prems t by simp
  show ?case
    using r1 r2 e t rest by (cases e2) (simp_all add: agree_def)
qed

lemma walkDir_agree:
  assumes "sim P fls R a1 a2"
  shows "R s1 s2 \<Longrightarrow> agree R (walkDir P path d (visit P fls a1) s1) (walkDir P path d (visit P fls a2) s2)"
proof (induction d arbitrary: path s1 s2)
  case (Node nm isdir fi rderr ents)
  let ?d = "Node nm isdir fi rderr ents"
  have ents: "\<And>t1 t2. R t1 t2 \<Longrightarrow>
      agree R (walkEntries P path ents (visit P fls a1) t1) (walkEntries P path ents (visit P fls a2) t2)"
    by (rule walkEntries_agree_step) (use Node.IH in auto)
  have v: "\<And>err t1 t2. R t1 t2 \<Longrightarrow>
      agree R (visit P fls a1 path (Some ?d) err t1) (visit P fls a2 path (Some ?d) err t2)"
    using assms by (rule visit_agree)
  obtain e1 t1 where r1: "visit P fls a1 path (Some ?d) None s1 = (e1, t1)"
    by (cases "visit P fls a1 path (Some ?d) None s1")
  obtain e2 t2 where r2: "visit P fls a2 path (Some ?d) None s2 = (e2, t2)"
    by (cases "visit P fls a2 path (Some ?d) None s2")
  from v [OF Node.prems, of None] r1 r2 have e: "e1 = e2" and t: "R t1 t2"
    by (simp_all add: agree_def)
  show ?case
  proof (cases e2)
    case (Some err)
    then show ?thesis using r1 r2 e t by (simp add: agree_def)
  next
    case None
    note e2 = None
    show ?thesis
    proof (cases isdir)
      case False
      then show ?thesis using r1 r2 e t e2 by (simp add: agree_def)
    next
      case True
      show ?thesis
      proof (cases rderr)
        case None
        then show ?thesis using r1 r2 e t e2 True ents [OF t] by (simp add: agree_def)
      next
        case (Some rerr)
        obtain f1 u1 where q1: "visit P fls a1 path (Some ?d) (Some rerr) t1 = (f1, u1)"
          by (cases "visit P fls a1 path (Some ?d) (Some rerr) t1")
        obtain f2 u2 where q2: "visit P fls a2 path (Some ?d) (Some rerr) t2 = (f2, u2)"
          by (cases "visit P fls a2 path (Some ?d) (Some rerr) t2")
        from v [OF t, of "Some rerr"] q1 q2 have f: "f1 = f2" and u: "R u1 u2"
          by (simp_all add: agree_def)
        have w1: "walkDir P path ?d (visit P fls a1) s1 =
                    (case f1 of None \<Rightarrow> walkEntries P path ents (visit P fls a1) u1
                     | Some err \<Rightarrow> (if err = SkipDir then None else Some err, u1))"
          using r1 e e2 True Some q1 by (simp split: option.splits)
        have w2: "walkDir P path ?d (visit P fls a2) s2 =
                    (case f2 of None \<Rightarrow> walkEntries P path ents (visit P fls a2) u2
                     | Some err \<Rightarrow> (if err = SkipDir then None else Some err, u2))"
          using r2 e2 True Some q2 by (simp split: option.splits)
        show ?thesis
          unfolding w1 w2 using f u ents [OF u] by (cases f2) (simp_all add: agree_def)
      qed
    qed
  qed
qed

lemma WalkDir_agree:
  assumes "sim P fls R a1 a2" and "R s1 s2"
  shows "agree R (WalkDir P fs root (visit P fls a1) s1) (WalkDir P fs root (visit P fls a2) s2)"
proof (cases "fs root")
  case (Inl err)
  with visit_agree [OF assms, of root None "Some err"] show ?thesis
    by (auto simp: WalkDir_def agree_def split: prod.splits)
next
  case (Inr d)
  with walkDir_agree [OF assms, of root d] show ?thesis
    by (auto simp: WalkDir_def agree_def split: prod.splits)
qed

lemma walkRoots_agree:
  assumes "sim P fls R a1 a2"
  shows "R s1 s2 \<Longrightarrow> agree R (walkRoots P fs fls a1 roots s1) (walkRoots P fs fls a2 roots s2)"
proof (induction roots arbitrary: s1 s2)
  case Nil
  then show ?case by (simp add: agree_def)
next
  case (Cons root roots)
  from WalkDir_agree [OF assms Cons.prems, of fs root] Cons.IH show ?case
    by (auto simp: agree_def split: prod.splits option.splits)
qed

subsection \<open>The scan as a fold over the visited entries\<close>

lemma latest_later: "latest p i s = (None, later s (p, i))"
  by (cases s) (simp add: latest_def later_def)

lemma selectiveWalk_latest:
  "selectiveWalk P fs fls latest s0 =
     (fst (selectiveWalk P fs fls noted []), foldl later s0 (visited P fs fls))"
proof -
  have "sim P fls (\<lambda>s acc. s = foldl later s0 acc) latest noted"
    by (simp add: sim_def latest_later noted_def)
  from walkRoots_agree [OF this, where ?s1.0 = s0 and ?s2.0 = "[]" and fs = fs and roots = "watch fls"] show ?thesis
    by (simp add: agree_def selectiveWalk_def visited_def prod_eq_iff)
qed

lemma findLatestChange_foldl:
  "findLatestChange P fs fls =
     (fst (foldl later (0, []) (visited P fs fls)), snd (foldl later (0, []) (visited P fs fls)),
      fst (selectiveWalk P fs fls noted []))"
  by (simp add: findLatestChange_def selectiveWalk_latest split: prod.splits)


lemma foldl_later_first_max:
  "foldl later (t0, f0) vs = (t, f) \<Longrightarrow>
     t0 \<le> t \<and> (\<forall>v \<in> set vs. ModTime (snd v) \<le> t) \<and>
     ((t = t0 \<and> f = f0) \<or>
      (t0 < t \<and> (\<exists>pre i post. vs = pre @ (f, i) # post \<and> ModTime i = t \<and>
           (\<forall>v \<in> set pre. ModTime (snd v) < t) \<and> (\<forall>v \<in> set post. ModTime (snd v) \<le> t))))"
proof (induction vs arbitrary: t f rule: rev_induct)
  case Nil
  then show ?case by simp
next
  case (snoc x xs)
  obtain t1 f1 where m: "foldl later (t0, f0) xs = (t1, f1)"
    by (cases "foldl later (t0, f0) xs")
  note ih = snoc.IH [OF m]
  from snoc.prems have "later (foldl later (t0, f0) xs) x = (t, f)" by simp
  then have step: "later (t1, f1) x = (t, f)" by (simp only: m)
  show ?case
  proof (cases "After (ModTime (snd x)) t1")
    case True
    with step have tf: "t = ModTime (snd x)" "f = fst x"
      by (simp_all add: later_def)
    from True have lt: "t1 < t" by (simp add: After_def tf)
    have "xs @ [x] = xs @ (f, snd x) # []" by (simp add: tf)
    moreover have "\<forall>v \<in> set xs. ModTime (snd v) < t" using ih lt by fastforce
    ultimately have "\<exists>pre i post. xs @ [x] = pre @ (f, i) # post \<and> ModTime i = t \<and>
           (\<forall>v \<in> set pre. ModTime (snd v) < t) \<and> (\<forall>v \<in> set post. ModTime (snd v) \<le> t)"
      using tf by (intro exI [of _ xs] exI [of _ "snd x"] exI [of _ "[]"]) simp
    moreover have "t0 < t" using ih lt by simp
    moreover have "\<forall>v \<in> set (xs @ [x]). ModTime (snd v) \<le> t" using ih lt tf by fastforce
    ultimately show ?thesis by simp
  next
    case False
    with step have tf: "t = t1" "f = f1"
      by (simp_all add: later_def)
    from False have le: "ModTime (snd x) \<le> t" by (simp add: After_def tf)
    show ?thesis
    proof (cases "t1 = t0 \<and> f1 = f0")
      case True
      then show ?thesis using ih le tf by auto
    next
      case False
      with ih obtain pre i post where d: "xs = pre @ (f1, i) # post" "ModTime i = t1"
        "\<forall>v \<in> set pre. ModTime (snd v) < t1" "\<forall>v \<in> set post. ModTime (snd v) \<le> t1" and lt: "t0 < t1"
        by blast
      have "xs @ [x] = pre @ (f, i) # (post @ [x])" using d tf by simp
      moreover have "\<forall>v \<in> set (post @ [x]). ModTime (snd v) \<le> t" using d le tf by simp
      ultimately have "\<exists>pre i post. xs @ [x] = pre @ (f, i) # post \<and> ModTime i = t \<and>
           (\<forall>v \<in> set pre. ModTime (snd v) < t) \<and> (\<forall>v \<in> set post. ModTime (snd v) \<le> t)"
        using d tf by blast
      moreover have "\<forall>v \<in> set (xs @ [x]). ModTime (snd v) \<le> t" using ih le tf by simp
      ultimately show ?thesis using lt tf by simp
    qed
  qed
qed

subsection \<open>Ignored paths\<close>


lemma walkDir_ignored:
  "ignored P (ignore fls) path \<Longrightarrow>
   walkDir P path d (visit P fls action) s = (if IsDir d then None else Some SkipDir, s)"
  by (cases d) (simp add: visit_def)



lemma ties_scan: "findLatestChange linuxExample tiesFs watchW = (7, ''/w/a'', None)"
  by (simp add: scan_defs)

lemma ties_visited: "visited linuxExample tiesFs watchW =
   [(''/w'', \<lparr>ModTime = 3\<rparr>), (''/w/a'', \<lparr>ModTime = 7\<rparr>), (''/w/b'', \<lparr>ModTime = 7\<rparr>), (''/w/c'', \<lparr>ModTime = 6\<rparr>)]"
  by (simp add: scan_defs)

lemma git_visited: "visited linuxExample gitFs watchW = [(''/w'', \<lparr>ModTime = 3\<rparr>)]"
  by (simp add: scan_defs)





text \<open>
  C8. When the scan returns a time \<open>t\<close> after the zero time and a path \<open>f\<close>, then \<open>f\<close> is
  the first visited entry, in the order of the walk, whose modification time is \<open>t\<close>:
  every entry before it is strictly older and no entry after it is newer. An entry whose
  time equals the running maximum leaves the maximum and the recorded path as they are.
\<close>

theorem C8_ties_keep_first:
  "findLatestChange P fs fls = (t, f, err) \<Longrightarrow> 0 < t \<Longrightarrow>
     (\<exists>pre i post. visited P fs fls = pre @ (f, i) # post \<and> ModTime i = t \<and>
         (\<forall>v \<in> set pre. ModTime (snd v) < t) \<and> (\<forall>v \<in> set post. ModTime (snd v) \<le> t))
     \<and> (\<forall>path info. ModTime info \<le> t \<longrightarrow> latest path info (t, f) = (None, (t, f)))"
proof -
  assume r: "findLatestChange P fs fls = (t, f, err)" and pos: "0 < t"
  from r have "foldl later (0, []) (visited P fs fls) = (t, f)"
    by (simp add: findLatestChange_foldl prod_eq_iff)
  from foldl_later_first_max [OF this] pos
  have "\<exists>pre i post. visited P fs fls = pre @ (f, i) # post \<and> ModTime i = t \<and>
         (\<forall>v \<in> set pre. ModTime (snd v) < t) \<and> (\<forall>v \<in> set post. ModTime (snd v) \<le> t)"
    by auto
  moreover have "\<forall>path info. ModTime info \<le> t \<longrightarrow> latest path info (t, f) = (None, (t, f))"
    by (simp add: latest_def After_def)
  ultimately show ?thesis by blast
qed

theorem C8_ties_keep_first_witness:
  "findLatestChange linuxExample tiesFs watchW = (7, ''/w/a'', None) \<and> (0::int) < 7
   \<and> visited linuxExample tiesFs watchW =
       [(''/w'', \<lparr>ModTime = 3\<rparr>)] @ (''/w/a'', \<lparr>ModTime = 7\<rparr>) # [(''/w/b'', \<lparr>ModTime = 7\<rparr>), (''/w/c'', \<lparr>ModTime = 6\<rparr>)]
   \<and> (\<exists>pre i post. visited linuxExample tiesFs watchW = pre @ (''/w/a'', i) # post \<and> ModTime i = 7 \<and>
         (\<forall>v \<in> set pre. ModTime (snd v) < 7) \<and> (\<forall>v \<in> set post. ModTime (snd v) \<le> 7))
   \<and> latest ''/w/b'' \<lparr>ModTime = 7\<rparr> (7, ''/w/a'') = (None, (7, ''/w/a''))"
proof -
  have pos: "(0::int) < 7" by simp
  from C8_ties_keep_first [OF ties_scan pos] ties_scan ties_visited show ?thesis by simp
qed

subsection \<open>Every visited entry is reached through paths that are not ignored\<close>














text \<open>
  C10 (corrected). The entries after an ignored file are skipped in the walk of their
  directory only. Each watch root is walked on its own, so a later sibling that is
  itself a watch root is visited and can be the result of the scan: with the roots \<open>/w\<close>
  and \<open>/w/z\<close> and the ignored file \<open>/w/.git\<close> listed before \<open>z\<close>, the scan returns \<open>/w/z\<close>.
\<close>

theorem C10_later_sibling_as_root:
  "\<not> IsDir (fileAt ''.git'' 9)
   \<and> ignored linuxExample (ignore twoRoots) (filepathJoin linuxExample ''/w'' (Name (fileAt ''.git'' 9)))
   \<and> twoRootsFs ''/w'' = Inr (dirAt ''w'' 3 ([] @ fileAt ''.git'' 9 # [fileAt ''z'' 8]))
   \<and> visited linuxExample twoRootsFs twoRoots = [(''/w'', \<lparr>ModTime = 3\<rparr>), (''/w/z'', \<lparr>ModTime = 8\<rparr>)]
   \<and> findLatestChange linuxExample twoRootsFs twoRoots = (8, ''/w/z'', None)"
  by (simp add: scan_defs)

text \<open>
  C10, as amended. When an ignore rule matches an entry \<open>f\<close> of a directory that is not
  itself a directory, the loop over the entries of that directory stops there: the walk
  of the entries \<open>pre @ f # post\<close> is the walk of \<open>pre\<close> alone, whatever the action, so in
  the walk of that directory neither \<open>f\<close> nor any entry listed after it reaches the
  action.
\<close>

theorem C10_ignored_file_skips_siblings:
  "\<not> IsDir f \<Longrightarrow> ignored P (ignore fls) (filepathJoin P path (Name f)) \<Longrightarrow>
   walkEntries P path (pre @ f # post) (visit P fls action) s = walkEntries P path pre (visit P fls action) s"
proof (induction pre arbitrary: s)
  case Nil
  then show ?case by (simp add: walkDir_ignored)
next
  case (Cons a pre)
  then show ?case by (simp split: prod.splits option.splits)
qed

theorem C10_ignored_file_skips_siblings_witness:
  "\<not> IsDir (fileAt ''.git'' 9)
   \<and> ignored linuxExample (ignore watchW) (filepathJoin linuxExample ''/w'' (Name (fileAt ''.git'' 9)))
   \<and> walkEntries linuxExample ''/w'' ([fileAt ''a'' 4] @ fileAt ''.git'' 9 # [fileAt ''z'' 8]) (visit linuxExample watchW noted) []
       = walkEntries linuxExample ''/w'' [fileAt ''a'' 4] (visit linuxExample watchW noted) []
   \<and> walkEntries linuxExample ''/w'' [fileAt ''a'' 4] (visit linuxExample watchW noted) [] = (None, [(''/w/a'', \<lparr>ModTime = 4\<rparr>)])
   \<and> visited linuxExample gitFs watchW = [(''/w'', \<lparr>ModTime = 3\<rparr>)]"
proof -
  have a: "\<not> IsDir (fileAt ''.git'' 9)" by (simp add: fileAt_def)
  have b: "ignored linuxExample (ignore watchW) (filepathJoin linuxExample ''/w'' (Name (fileAt ''.git'' 9)))"
    by (simp add: scan_defs)
  have c: "walkEntries linuxExample ''/w'' [fileAt ''a'' 4] (visit linuxExample watchW noted) [] = (None, [(''/w/a'', \<lparr>ModTime = 4\<rparr>)])"
    by (simp add: scan_defs)
  from C10_ignored_file_skips_siblings [OF a b, of "[fileAt ''a'' 4]" "[fileAt ''z'' 8]" noted "[]"] a b c git_visited
  show ?thesis by simp
qed

section \<open>Properties of the watch loop\<close>

lemma baselines_append: "baselines (xs @ ys) = baselines xs @ baselines ys"
  by (induction xs rule: baselines.induct) simp_all

lemma baselines_runCmd: "baselines (snd (runCmd spawn name args)) = []"
  by (simp add: runCmd_def split: procResult.splits)

lemma baselines_execute: "baselines (snd (execute P fls spawn)) = []"
  by (simp add: execute_def baselines_runCmd)

lemma baselines_executeAndHandle: "baselines (snd (executeAndHandle P fls spawn filename)) = []"
proof -
  obtain err ran where e: "execute P fls spawn = (err, ran)"
    by (cases "execute P fls spawn")
  with baselines_execute [of P fls spawn] have "baselines ran = []" by simp
  with e show ?thesis
    by (simp add: executeAndHandle_def Let_def baselines_append split: option.splits error.splits)
qed

lemma watchLoop_baselines:
  "sorted_wrt (<) (baselines (watchLoop P fls cur inputs)) \<and>
   (\<forall>t \<in> set (baselines (watchLoop P fls cur inputs)). cur < t)"
proof (induction inputs arbitrary: cur)
  case Nil
  show ?case by simp
next
  case (Cons i inputs)
  show ?case
  proof (cases i)
    case Signal
    then show ?thesis by simp
  next
    case (Tick fs spawn)
    obtain t f err where r: "findLatestChange P fs fls = (t, f, err)"
      by (cases "findLatestChange P fs fls")
    obtain ok out where x: "executeAndHandle P fls spawn f = (ok, out)"
      by (cases "executeAndHandle P fls spawn f")
    with baselines_executeAndHandle [of P fls spawn f] have out: "baselines out = []" by simp
    show ?thesis
    proof (cases err)
      case (Some e)
      with Tick r show ?thesis by simp
    next
      case None
      show ?thesis
      proof (cases "After t cur")
        case False
        with Tick r None Cons.IH [of cur] show ?thesis by simp
      next
        case True
        then have lt: "cur < t" by (simp add: After_def)
        show ?thesis
        proof (cases ok)
          case False
          with Tick r None True x out show ?thesis by (simp add: baselines_append)
        next
          case ok: True
          have "\<forall>u \<in> set (baselines (watchLoop P fls t inputs)). cur < u"
            using Cons.IH [of t] lt by fastforce
          with Tick r None True x out ok Cons.IH [of t] lt show ?thesis
            by (simp add: baselines_append)
        qed
      qed
    qed
  qed
qed

lemma main_baselines_sorted: "sorted_wrt (<) (baselines (main P args fs0 spawn0 inputs))"
proof (cases "processFlags P args")
  case (Inl e)
  then show ?thesis by (simp add: main_def)
next
  case (Inr fls)
  obtain t f err where r: "findLatestChange P fs0 fls = (t, f, err)"
    by (cases "findLatestChange P fs0 fls")
  obtain ok out where x: "executeAndHandle P fls spawn0 [] = (ok, out)"
    by (cases "executeAndHandle P fls spawn0 []")
  with baselines_executeAndHandle [of P fls spawn0 "[]"] have out: "baselines out = []" by simp
  show ?thesis
  proof (cases err)
    case (Some e)
    with Inr r show ?thesis by (simp add: main_def)
  next
    case None
    with Inr r x out watchLoop_baselines [of P fls t inputs] show ?thesis
      by (cases ok) (simp_all add: main_def baselines_append)
  qed
qed

lemma main_baselines_first:
  "processFlags P args = Inr fls \<Longrightarrow> findLatestChange P fs0 fls = (t0, f0, None) \<Longrightarrow>
   \<exists>bs. baselines (main P args fs0 spawn0 inputs) = t0 # bs"
  by (simp add: main_def split: prod.splits bool.splits)

lemma watchLoop_assigns:
  "findLatestChange P fs fls = (t, f, None) \<Longrightarrow> After t cur \<Longrightarrow> fst (executeAndHandle P fls spawn f) \<Longrightarrow>
   baselines (watchLoop P fls cur (Tick fs spawn # rest)) = t # baselines (watchLoop P fls t rest)"
  using baselines_executeAndHandle [of P fls spawn f]
  by (cases "executeAndHandle P fls spawn f") (simp add: baselines_append)

lemma watchLoop_keeps:
  "findLatestChange P fs fls = (t, f, None) \<Longrightarrow> \<not> After t cur \<Longrightarrow>
   baselines (watchLoop P fls cur (Tick fs spawn # rest)) = baselines (watchLoop P fls cur rest)"
  by simp

lemma main_example_baselines:
  "baselines (main (linuxExample\<lparr>GOOS := ''linux''\<rparr>) [''/w'', ''-e'', ''make''] emptyDirFs (exitsWith 0)
      [Tick tiesFs (exitsWith 0), Tick emptyDirFs (exitsWith 0), Signal]) = [5, 7]"
  unfolding main_def processFlags_w_make by (simp add: scan_defs run_defs)

lemma watchAll_scans:
  "findLatestChange (linuxExample\<lparr>GOOS := ''linux''\<rparr>) emptyDirFs watchAll = (5, ''/w'', None)"
  "findLatestChange (linuxExample\<lparr>GOOS := ''linux''\<rparr>) tiesFs watchAll = (7, ''/w/a'', None)"
  by (simp_all add: scan_defs)

lemma watchAll_run: "fst (executeAndHandle (linuxExample\<lparr>GOOS := ''linux''\<rparr>) watchAll (exitsWith 0) ''/w/a'')"
  by (simp add: run_defs linuxExample_def)

text \<open>
  C7. In every run of the program, whatever the arguments, the file systems seen and
  the outcomes of the command, the values assigned to \<open>currentLatestModTime\<close> are
  strictly increasing, hence non-decreasing. The first of them is the time returned by
  the first scan. In a turn of the loop the baseline is replaced, by the time of the
  scan, exactly when that time is strictly after it and the command runner returns
  true; a scan that finds no later time leaves it as it is; and every value assigned in
  the loop is strictly after the baseline the loop started from.
\<close>

theorem C7_baseline_initialized_and_increasing:
  "sorted_wrt (<) (baselines (main P args fs0 spawn0 inputs))
   \<and> sorted_wrt (\<le>) (baselines (main P args fs0 spawn0 inputs))
   \<and> (processFlags P args = Inr fls0 \<and> findLatestChange P fs0 fls0 = (t0, f0, None) \<longrightarrow>
        (\<exists>bs. baselines (main P args fs0 spawn0 inputs) = t0 # bs))
   \<and> (findLatestChange P fs1 fls = (t1, f1, None) \<and> After t1 cur1 \<and> fst (executeAndHandle P fls spawn1 f1) \<longrightarrow>
        baselines (watchLoop P fls cur1 (Tick fs1 spawn1 # rest1)) = t1 # baselines (watchLoop P fls t1 rest1))
   \<and> (findLatestChange P fs2 fls = (t2, f2, None) \<and> \<not> After t2 cur2 \<longrightarrow>
        baselines (watchLoop P fls cur2 (Tick fs2 spawn2 # rest2)) = baselines (watchLoop P fls cur2 rest2))
   \<and> list_all (\<lambda>u. cur3 < u) (baselines (watchLoop P fls cur3 inputs3))"
proof -
  have s: "sorted_wrt (<) (baselines (main P args fs0 spawn0 inputs))"
    by (rule main_baselines_sorted)
  from s have s': "sorted_wrt (\<le>) (baselines (main P args fs0 spawn0 inputs))"
    by (rule sorted_wrt_mono_rel [rotated]) simp
  have i: "processFlags P args = Inr fls0 \<and> findLatestChange P fs0 fls0 = (t0, f0, None) \<longrightarrow>
        (\<exists>bs. baselines (main P args fs0 spawn0 inputs) = t0 # bs)"
    using main_baselines_first by blast
  have a: "findLatestChange P fs1 fls = (t1, f1, None) \<and> After t1 cur1 \<and> fst (executeAndHandle P fls spawn1 f1) \<longrightarrow>
        baselines (watchLoop P fls cur1 (Tick fs1 spawn1 # rest1)) = t1 # baselines (watchLoop P fls t1 rest1)"
    using watchLoop_assigns by blast
  have k: "findLatestChange P fs2 fls = (t2, f2, None) \<and> \<not> After t2 cur2 \<longrightarrow>
        baselines (watchLoop P fls cur2 (Tick fs2 spawn2 # rest2)) = baselines (watchLoop P fls cur2 rest2)"
    using watchLoop_keeps by blast
  have l: "list_all (\<lambda>u. cur3 < u) (baselines (watchLoop P fls cur3 inputs3))"
    using watchLoop_baselines [of P fls cur3 inputs3] by (simp add: list_all_iff)
  from s s' i a k l show ?thesis by blast
qed

theorem C7_baseline_initialized_and_increasing_witness:
  "processFlags (linuxExample\<lparr>GOOS := ''linux''\<rparr>) [''/w'', ''-e'', ''make''] = Inr watchAll
   \<and> findLatestChange (linuxExample\<lparr>GOOS := ''linux''\<rparr>) emptyDirFs watchAll = (5, ''/w'', None)
   \<and> baselines (main (linuxExample\<lparr>GOOS := ''linux''\<rparr>) [''/w'', ''-e'', ''make''] emptyDirFs (exitsWith 0)
        [Tick tiesFs (exitsWith 0), Tick emptyDirFs (exitsWith 0), Signal]) = [5, 7]
   \<and> sorted_wrt (<) [5, 7 :: int]
   \<and> findLatestChange (linuxExample\<lparr>GOOS := ''linux''\<rparr>) tiesFs watchAll = (7, ''/w/a'', None)
   \<and> After 7 5
   \<and> fst (executeAndHandle (linuxExample\<lparr>GOOS := ''linux''\<rparr>) watchAll (exitsWith 0) ''/w/a'')
   \<and> baselines (watchLoop (linuxExample\<lparr>GOOS := ''linux''\<rparr>) watchAll 5
        (Tick tiesFs (exitsWith 0) # [Tick emptyDirFs (exitsWith 0), Signal])) =
      7 # baselines (watchLoop (linuxExample\<lparr>GOOS := ''linux''\<rparr>) watchAll 7 [Tick emptyDirFs (exitsWith 0), Signal])
   \<and> \<not> After 5 7
   \<and> baselines (watchLoop (linuxExample\<lparr>GOOS := ''linux''\<rparr>) watchAll 7 (Tick emptyDirFs (exitsWith 0) # [Signal])) =
      baselines (watchLoop (linuxExample\<lparr>GOOS := ''linux''\<rparr>) watchAll 7 [Signal])
   \<and> list_all (\<lambda>u. 5 < u)
        (baselines (watchLoop (linuxExample\<lparr>GOOS := ''linux''\<rparr>) watchAll 5
           [Tick tiesFs (exitsWith 0), Tick emptyDirFs (exitsWith 0), Signal]))"
proof -
  let ?P = "linuxExample\<lparr>GOOS := ''linux''\<rparr>"
  let ?args = "[''/w'', ''-e'', ''make'']"
  let ?inputs = "[Tick tiesFs (exitsWith 0), Tick emptyDirFs (exitsWith 0), Signal]"
  have p: "processFlags ?P ?args = Inr watchAll"
    by (simp add: processFlags_w_make watchAll_def)
  have af: "After 7 5" "\<not> After 5 7" by (simp_all add: After_def)
  note c7 = C7_baseline_initialized_and_increasing [where P = "?P" and args = "?args" and ?fs0.0 = emptyDirFs
      and ?spawn0.0 = "exitsWith 0" and inputs = "?inputs" and ?fls0.0 = watchAll and ?t0.0 = 5 and ?f0.0 = "''/w''"
      and fls = watchAll and ?fs1.0 = tiesFs and ?t1.0 = 7 and ?f1.0 = "''/w/a''" and ?cur1.0 = 5
      and ?spawn1.0 = "exitsWith 0" and ?rest1.0 = "[Tick emptyDirFs (exitsWith 0), Signal]"
      and ?fs2.0 = emptyDirFs and ?t2.0 = 5 and ?f2.0 = "''/w''" and ?cur2.0 = 7 and ?spawn2.0 = "exitsWith 0"
      and ?rest2.0 = "[Signal]" and ?cur3.0 = 5 and ?inputs3.0 = "?inputs"]
  have s: "sorted_wrt (<) [5, 7 :: int]"
    using c7 main_example_baselines by simp
  have a: "baselines (watchLoop ?P watchAll 5 (Tick tiesFs (exitsWith 0) # [Tick emptyDirFs (exitsWith 0), Signal])) =
      7 # baselines (watchLoop ?P watchAll 7 [Tick emptyDirFs (exitsWith 0), Signal])"
    using c7 watchAll_scans af watchAll_run by blast
  have k: "baselines (watchLoop ?P watchAll 7 (Tick emptyDirFs (exitsWith 0) # [Signal])) =
      baselines (watchLoop ?P watchAll 7 [Signal])"
    using c7 watchAll_scans af by blast
  have l: "list_all (\<lambda>u. 5 < u) (baselines (watchLoop ?P watchAll 5 ?inputs))"
    using c7 by blast
  from p watchAll_scans main_example_baselines s af watchAll_run a k l show ?thesis by blast
qed

lemma emptyDir_scan: "findLatestChange linuxExample emptyDirFs watchW = (5, ''/w'', None)"
  by (simp add: scan_defs)

lemma emptyDir_run: "executeAndHandle linuxExample watchW (exitsWith 2) ''/w'' =
    (True, [PrintHasChanged ''/w'', RunCommand ''/bin/sh'' [''-c'', ''make''], PrintExitCode 2, PrintNewline])"
  by (simp add: run_defs linuxExample_def watchW_def)

text \<open>
  C5 (corrected). In a turn of the loop whose scan finds a later time, the command is
  run first and \<open>currentLatestModTime\<close> is assigned afterwards: here the command runs
  while the stored baseline is still the old one.
\<close>

theorem C5_command_runs_before_assignment:
  "watchLoop linuxExample watchW 0 [Tick emptyDirFs (exitsWith 0)] =
     [PrintHasChanged ''/w'', RunCommand ''/bin/sh'' [''-c'', ''make''], PrintNewline, AssignBaseline 5]"
  by (simp add: scan_defs run_defs)

text \<open>
  C5, as amended. In a turn of the loop whose scan finds a time after the stored
  baseline, \<open>executeAndHandle\<close> is called first, with no assignment of the baseline
  among its effects; the baseline is assigned the new time after it has returned true,
  and when it returns false \<open>main\<close> returns without assigning it.
\<close>

theorem C5_baseline_assigned_after_run:
  "findLatestChange P fs fls = (t, f, None) \<Longrightarrow> After t cur \<Longrightarrow>
   executeAndHandle P fls spawn f = (ok, out) \<Longrightarrow>
     watchLoop P fls cur (Tick fs spawn # rest) =
       (if ok then out @ AssignBaseline t # watchLoop P fls t rest else out @ [Return])
     \<and> baselines out = []"
  using baselines_executeAndHandle [of P fls spawn f] by simp

theorem C5_baseline_assigned_after_run_witness:
  "findLatestChange linuxExample emptyDirFs watchW = (5, ''/w'', None) \<and> After 5 0
   \<and> executeAndHandle linuxExample watchW (exitsWith 2) ''/w'' =
       (True, [PrintHasChanged ''/w'', RunCommand ''/bin/sh'' [''-c'', ''make''], PrintExitCode 2, PrintNewline])
   \<and> watchLoop linuxExample watchW 0 [Tick emptyDirFs (exitsWith 2), Signal] =
       [PrintHasChanged ''/w'', RunCommand ''/bin/sh'' [''-c'', ''make''], PrintExitCode 2, PrintNewline,
        AssignBaseline 5, Return]"
proof -
  have a: "After 5 0" by (simp add: After_def)
  from C5_baseline_assigned_after_run [OF emptyDir_scan a emptyDir_run, of "[Signal]"] emptyDir_scan a emptyDir_run
  show ?thesis by simp
qed

end
